theory Spec2Isabelle
  imports Complex_Main "HOL-Library.Sublist"
begin

section \<open>Data model\<close>

text \<open>
  The two components \<^verbatim>\<open>DailyView\<close> and \<^verbatim>\<open>ProjectView\<close> import their data types from
  \<^verbatim>\<open>../types\<close>, which lies outside the two components. The records below carry the fields
  the components read and write. Field names shared by several TypeScript interfaces
  (\<^verbatim>\<open>id\<close>, \<^verbatim>\<open>title\<close>, \<^verbatim>\<open>completed\<close>, \<^verbatim>\<open>deadline\<close>, \<^verbatim>\<open>slug\<close>) get the owner as a prefix;
  \<^verbatim>\<open>term\<close> and \<^verbatim>\<open>notes\<close> are keywords of Isabelle and become \<open>project_term\<close> and
  \<open>task_notes\<close>.
  A JavaScript string is modelled as a \<^typ>\<open>string\<close>; an optional field as an option.
\<close>

datatype ParaCategory = Projects | Areas | Resources | Archives

text \<open>The state \<^verbatim>\<open>manualCategory\<close> has type \<^verbatim>\<open>ParaCategory | 'Auto'\<close>.\<close>

datatype ManualCategory = Auto | Chosen ParaCategory

text \<open>Modelled from the spec: the interface \<^verbatim>\<open>ProjectItem\<close> of \<^verbatim>\<open>../types\<close> (section 3).\<close>

record ProjectItem =
  item_id :: string
  item_title :: string
  item_completed :: bool
  item_deadline :: "string option"

text \<open>Modelled from the spec: the type \<^verbatim>\<open>Task['linkMetadata']\<close> of \<^verbatim>\<open>../types\<close>; the
  fields are those of the object literal built in \<^verbatim>\<open>handleAddTask\<close>.\<close>

record LinkMetadata =
  displayTitle :: string
  domain :: string
  favicon :: string
  link_slug :: string
  isPinned :: bool

text \<open>Modelled from the spec: the interface \<^verbatim>\<open>Task\<close> of \<^verbatim>\<open>../types\<close> (the Entry of
  section 3).\<close>

record Task =
  task_id :: string
  task_title :: string
  category :: ParaCategory
  date :: string
  task_completed :: bool
  linkMetadata :: "LinkMetadata option"
  task_notes :: "string option"
  archivedItems :: "ProjectItem list option"

datatype Term = Mid | Long

text \<open>Modelled from the spec: the interface \<^verbatim>\<open>Project\<close> of \<^verbatim>\<open>../types\<close> (section 3).\<close>

record Project =
  project_id :: string
  project_title :: string
  description :: string
  project_term :: Term
  project_deadline :: string
  status :: string
  items :: "ProjectItem list"
  project_slug :: string


section \<open>JavaScript library functions used by the components\<close>

subsection \<open>Strings\<close>

text \<open>
  \<^verbatim>\<open>String.prototype.trim\<close> removes white space and line terminators from both ends.
  Of the characters a \<^typ>\<open>char\<close> can hold these are TAB, LF, VT, FF, CR, SPACE and
  NO-BREAK SPACE.
\<close>

definition is_space :: "char \<Rightarrow> bool" where
  "is_space c = (of_char c \<in> {9, 10, 11, 12, 13, 32, 160 :: nat})"

definition trim :: "string \<Rightarrow> string" where
  "trim s = rev (dropWhile is_space (rev (dropWhile is_space s)))"

text \<open>\<^verbatim>\<open>s.startsWith(p)\<close>.\<close>

definition startsWith :: "string \<Rightarrow> string \<Rightarrow> bool" where
  "startsWith s p = prefix p s"

text \<open>
  \<^verbatim>\<open>s.replace(pat, rep)\<close> with a string pattern: the first occurrence of \<open>pat\<close> in
  \<open>s\<close>, wherever it is, is replaced; a string without an occurrence is returned as it
  is. (The replacement text used by the component has no \<^verbatim>\<open>$\<close> pattern.)
\<close>

fun replace :: "string \<Rightarrow> string \<Rightarrow> string \<Rightarrow> string" where
  "replace [] pat rep = (if pat = [] then rep else [])"
| "replace (c # cs) pat rep =
     (if prefix pat (c # cs) then rep @ drop (length pat) (c # cs)
      else c # replace cs pat rep)"

subsection \<open>Numbers\<close>

text \<open>
  A JavaScript Number is an IEEE 754 binary64 value. The numbers of \<^verbatim>\<open>getProgress\<close> are
  array lengths, their quotient, and its product with 100: all finite, and far from
  the subnormal and the overflow range. A finite double is modelled by the rational
  it denotes, and an arithmetic operation by the exact operation followed by \<open>fl64\<close>,
  rounding to the nearest value with a 53-bit significand, ties to the even
  significand.
\<close>

fun bits :: "nat \<Rightarrow> nat" where
  "bits n = (if n = 0 then 0 else Suc (bits (n div 2)))"

declare bits.simps [simp del]

text \<open>\<open>ilog2 q\<close> is the integer \<open>e\<close> with \<open>2\<^sup>e \<le> q < 2\<^sup>e\<^sup>+\<^sup>1\<close>, for \<open>q > 0\<close>.\<close>

definition ilog2 :: "rat \<Rightarrow> int" where
  "ilog2 q = (if 1 \<le> q then int (bits (nat \<lfloor>q\<rfloor>)) - 1
              else - int (bits (nat (\<lceil>1 / q\<rceil> - 1))))"

definition round_half_even :: "rat \<Rightarrow> int" where
  "round_half_even x =
     (let f = \<lfloor>x\<rfloor>; d = x - of_int f
      in if d < 1 / 2 then f
         else if 1 / 2 < d then f + 1
         else if even f then f else f + 1)"

definition fl64 :: "rat \<Rightarrow> rat" where
  "fl64 q =
     (if q = 0 then 0
      else let u = 2 powi (ilog2 \<bar>q\<bar> - 52)
           in of_int (round_half_even (q / u)) * u)"

definition js_div :: "rat \<Rightarrow> rat \<Rightarrow> rat" where
  "js_div a b = fl64 (a / b)"

definition js_mul :: "rat \<Rightarrow> rat \<Rightarrow> rat" where
  "js_mul a b = fl64 (a * b)"

text \<open>\<^verbatim>\<open>Math.round(x)\<close>: the integer nearest to \<open>x\<close>, a tie going to the larger one.\<close>

definition Math_round :: "rat \<Rightarrow> int" where
  "Math_round x = \<lfloor>x + 1 / 2\<rfloor>"


section \<open>ProjectView\<close>

text \<open>\<^verbatim>\<open>activeProjects\<close>: the projects shown in the working list.\<close>

definition activeProjects :: "Project list \<Rightarrow> Project list" where
  "activeProjects projects =
     filter (\<lambda>p.
       let total = length (items p) in
       if total = 0 then True
       else let completed = length (filter item_completed (items p))
            in total > completed \<or> total = 0) projects"

text \<open>\<^verbatim>\<open>getProgress\<close>: \<^verbatim>\<open>Math.round((completed / total) * 100)\<close>, and 0 without items.\<close>

definition getProgress :: "Project \<Rightarrow> int" where
  "getProgress project =
     (let total = length (items project) in
      if total = 0 then 0
      else let completed = length (filter item_completed (items project))
           in Math_round (js_mul (js_div (of_nat completed) (of_nat total)) 100))"

text \<open>
  The two counts of \<^verbatim>\<open>getProgress\<close>, and the case in which the exact percentage
  \<open>100 c / t\<close> lies halfway between two integers: \<open>200 c / t\<close> is an odd integer.
\<close>

definition completedCount :: "Project \<Rightarrow> nat" where
  "completedCount p = length (filter item_completed (items p))"

definition totalCount :: "Project \<Rightarrow> nat" where
  "totalCount p = length (items p)"

definition exact_tie :: "nat \<Rightarrow> nat \<Rightarrow> bool" where
  "exact_tie c t = (t dvd 200 * c \<and> odd (200 * c div t))"

text \<open>
  The progress in the words of the specification, in exact arithmetic: 0 for an empty
  item list, otherwise \<open>100 * completedCount / totalCount\<close> rounded half up.
\<close>

definition half_up :: "rat \<Rightarrow> int" where
  "half_up q = \<lfloor>q + 1 / 2\<rfloor>"

definition spec_progress :: "Project \<Rightarrow> int" where
  "spec_progress p =
     (if items p = [] then 0
      else half_up (of_nat (100 * completedCount p) / of_nat (totalCount p)))"

text \<open>
  \<^verbatim>\<open>ProjectCard\<close> keeps the edited fields in the state \<^verbatim>\<open>editData\<close>, initialised from the
  project, changed by the three inputs, and saved by
  \<^verbatim>\<open>onUpdate({...project, ...editData})\<close>.
\<close>

record EditData =
  edit_title :: string
  edit_description :: string
  edit_deadline :: string

definition initEditData :: "Project \<Rightarrow> EditData" where
  "initEditData project =
     \<lparr>edit_title = project_title project,
      edit_description = description project,
      edit_deadline = project_deadline project\<rparr>"

datatype EditEvent = TitleInput string | DescriptionInput string | DeadlineInput string

fun onChange :: "EditData \<Rightarrow> EditEvent \<Rightarrow> EditData" where
  "onChange editData (TitleInput v) = editData\<lparr>edit_title := v\<rparr>"
| "onChange editData (DescriptionInput v) = editData\<lparr>edit_description := v\<rparr>"
| "onChange editData (DeadlineInput v) = editData\<lparr>edit_deadline := v\<rparr>"

text \<open>The project handed to \<^verbatim>\<open>onUpdate\<close> by the save button.\<close>

definition onSave :: "Project \<Rightarrow> EditData \<Rightarrow> Project" where
  "onSave project editData =
     project\<lparr>project_title := edit_title editData,
             description := edit_description editData,
             project_deadline := edit_deadline editData\<rparr>"


section \<open>DailyView\<close>

text \<open>
  \<^verbatim>\<open>handleAddTask\<close> calls four functions that can fail: the constructor \<^verbatim>\<open>URL\<close> of the
  platform, which throws a \<^verbatim>\<open>TypeError\<close> on a text it cannot parse, and the three
  services of \<^verbatim>\<open>../services/geminiService\<close>, whose promises can reject. They are
  parameters of the model; \<open>url_hostname\<close> stands for \<^verbatim>\<open>new URL(text).hostname\<close>.
\<close>

datatype error = TypeError | Rejected

record env =
  url_hostname :: "string \<Rightarrow> error + string"
  summarizeLink :: "string \<Rightarrow> error + string"
  generateShortSlug :: "string \<Rightarrow> error + string"
  categorizeTask :: "string \<Rightarrow> error + ParaCategory"

definition isUrl :: "string \<Rightarrow> bool" where
  "isUrl text = startsWith text ''http''"

text \<open>
  The body of the \<^verbatim>\<open>try\<close> block up to the assignment of \<^verbatim>\<open>linkMeta\<close>: the first failure
  leaves the block. \<^verbatim>\<open>Promise.all\<close> rejects as soon as one of its two promises does.
\<close>

definition tryLinkMeta :: "env \<Rightarrow> string \<Rightarrow> error + LinkMetadata" where
  "tryLinkMeta e newTaskTitle =
     (case url_hostname e newTaskTitle of
        Inl err \<Rightarrow> Inl err
      | Inr host \<Rightarrow>
          let d = replace host ''www.'' '''' in
          (case (summarizeLink e newTaskTitle, generateShortSlug e newTaskTitle) of
             (Inr t, Inr s) \<Rightarrow>
               Inr \<lparr>displayTitle = t, domain = d,
                    favicon = ''https://www.google.com/s2/favicons?domain='' @ d @ ''&sz=64'',
                    link_slug = s, isPinned = False\<rparr>
           | (Inl err, _) \<Rightarrow> Inl err
           | (_, Inl err) \<Rightarrow> Inl err))"

text \<open>
  What a submission of the form does: nothing on a blank text; a call
  \<^verbatim>\<open>onAddTask(newTaskTitle, finalCategory, selectedDate, linkMeta)\<close>; or, when
  \<^verbatim>\<open>categorizeTask\<close> rejects, a rejection of the handler's own promise before
  \<^verbatim>\<open>onAddTask\<close> is reached, as no \<^verbatim>\<open>try\<close> encloses those two calls.
\<close>

datatype outcome =
    NoSubmit
  | OnAddTask string ParaCategory string "LinkMetadata option"
  | Unhandled error

text \<open>\<^verbatim>\<open>manualCategory === 'Auto' ? await categorizeTask(newTaskTitle) : manualCategory\<close>\<close>

definition autoOrManual :: "env \<Rightarrow> ManualCategory \<Rightarrow> string \<Rightarrow> error + ParaCategory" where
  "autoOrManual e manualCategory newTaskTitle =
     (case manualCategory of
        Auto \<Rightarrow> categorizeTask e newTaskTitle
      | Chosen c \<Rightarrow> Inr c)"

definition handleAddTask :: "env \<Rightarrow> ManualCategory \<Rightarrow> string \<Rightarrow> string \<Rightarrow> outcome" where
  "handleAddTask e manualCategory newTaskTitle selectedDate =
     (if trim newTaskTitle = [] then NoSubmit
      else if isUrl newTaskTitle then
        (case tryLinkMeta e newTaskTitle of
           Inr linkMeta \<Rightarrow>
             OnAddTask newTaskTitle
               (case manualCategory of Auto \<Rightarrow> Resources | Chosen c \<Rightarrow> c)
               selectedDate (Some linkMeta)
         | Inl _ \<Rightarrow>
             (case autoOrManual e manualCategory newTaskTitle of
                Inr finalCategory \<Rightarrow> OnAddTask newTaskTitle finalCategory selectedDate None
              | Inl err \<Rightarrow> Unhandled err))
      else
        (case autoOrManual e manualCategory newTaskTitle of
           Inr finalCategory \<Rightarrow> OnAddTask newTaskTitle finalCategory selectedDate None
         | Inl err \<Rightarrow> Unhandled err))"

text \<open>
  The state \<^verbatim>\<open>isAiLoading\<close>, which disables the input and the button of the form while
  it is true: a blank text returns before it is touched, \<^verbatim>\<open>setIsAiLoading(true)\<close> comes
  before the services are called, and \<^verbatim>\<open>setIsAiLoading(false)\<close> after \<^verbatim>\<open>onAddTask\<close>, so it
  is not reached when the handler is left by a rejection.
\<close>

definition isAiLoading_after :: "bool \<Rightarrow> outcome \<Rightarrow> bool" where
  "isAiLoading_after isAiLoading result =
     (case result of
        NoSubmit \<Rightarrow> isAiLoading
      | OnAddTask title cat day meta \<Rightarrow> False
      | Unhandled err \<Rightarrow> True)"

text \<open>
  \<^verbatim>\<open>toggleTask\<close> and \<^verbatim>\<open>deleteTask\<close> as functions from the task collection to the new
  one; \<^verbatim>\<open>tasks.find\<close> yields the first task with the id, or \<^verbatim>\<open>undefined\<close>, whose
  \<^verbatim>\<open>?.category\<close> is not \<^verbatim>\<open>'Resources'\<close>.
\<close>

definition toggleTask :: "string \<Rightarrow> Task list \<Rightarrow> Task list" where
  "toggleTask i tasks =
     (case find (\<lambda>t. task_id t = i) tasks of
        Some task \<Rightarrow>
          if category task = Resources then tasks
          else map (\<lambda>t. if task_id t = i then t\<lparr>task_completed := \<not> task_completed t\<rparr> else t) tasks
      | None \<Rightarrow>
          map (\<lambda>t. if task_id t = i then t\<lparr>task_completed := \<not> task_completed t\<rparr> else t) tasks)"

definition deleteTask :: "string \<Rightarrow> Task list \<Rightarrow> Task list" where
  "deleteTask i tasks = filter (\<lambda>t. task_id t \<noteq> i) tasks"

text \<open>The click handler of a task card:
  \<^verbatim>\<open>!isResources && !isArchivedProject && toggleTask(task.id)\<close>.\<close>

definition onClickTask :: "Task \<Rightarrow> Task list \<Rightarrow> Task list" where
  "onClickTask task tasks =
     (let isResources = (category task = Resources);
          isArchivedProject = (category task = Archives \<and> archivedItems task \<noteq> None)
      in if \<not> isResources \<and> \<not> isArchivedProject then toggleTask (task_id task) tasks
         else tasks)"

text \<open>Modelled from the spec: \<^verbatim>\<open>addEntry\<close> of section 4.5, the function behind the
  property \<^verbatim>\<open>onAddTask\<close>, which the parent component passes in:
  it "creates a new Entry with a fresh unique id, completed = false, and the supplied
  fields". The fresh id is a parameter; the new entry is put in front.\<close>

definition addEntry ::
  "string \<Rightarrow> string \<Rightarrow> ParaCategory \<Rightarrow> string \<Rightarrow> LinkMetadata option \<Rightarrow> Task list \<Rightarrow> Task list" where
  "addEntry fresh title cat day metadata tasks =
     \<lparr>task_id = fresh, task_title = title, category = cat, date = day,
      task_completed = False, linkMetadata = metadata, task_notes = None,
      archivedItems = None\<rparr> # tasks"


section \<open>Example values\<close>

text \<open>Concrete projects, tasks and environments, for the instances of the properties.\<close>

definition item :: "bool \<Rightarrow> ProjectItem" where
  "item done = \<lparr>item_id = ''i'', item_title = ''step'', item_completed = done, item_deadline = None\<rparr>"

definition project_with :: "ProjectItem list \<Rightarrow> Project" where
  "project_with its =
     \<lparr>project_id = ''p'', project_title = ''Launch'', description = ''Ship it'',
      project_term = Mid, project_deadline = ''2024-06-30'', status = ''In Progress'',
      items = its, project_slug = ''launch''\<rparr>"

definition project_23_of_40 :: Project where
  "project_23_of_40 = project_with (replicate 23 (item True) @ replicate 17 (item False))"

definition project_200_of_201 :: Project where
  "project_200_of_201 = project_with (replicate 200 (item True) @ [item False])"

definition task_ex :: "string \<Rightarrow> ParaCategory \<Rightarrow> bool \<Rightarrow> Task" where
  "task_ex i cat done =
     \<lparr>task_id = i, task_title = ''Read the paper'', category = cat, date = ''2024-01-01'',
      task_completed = done, linkMetadata = None, task_notes = None, archivedItems = None\<rparr>"

definition archived_ex :: Task where
  "archived_ex =
     \<lparr>task_id = ''z'', task_title = ''Launch'', category = Archives, date = ''2024-01-01'',
      task_completed = True, linkMetadata = None, task_notes = Some ''Ship it'',
      archivedItems = Some [item True, item True]\<rparr>"

text \<open>An environment whose services succeed and whose \<open>url_hostname\<close> gives the host
  of the two URLs of the instances, one whose \<^verbatim>\<open>summarizeLink\<close> rejects, and one where
  \<^verbatim>\<open>categorizeTask\<close> rejects as well.\<close>

definition env_up :: env where
  "env_up =
     \<lparr>url_hostname = (\<lambda>u. if u = ''https://example.com/page'' then Inr ''example.com''
                          else if u = ''https://docs.www.example.com/guide''
                          then Inr ''docs.www.example.com'' else Inl TypeError),
      summarizeLink = (\<lambda>u. Inr ''Example page''),
      generateShortSlug = (\<lambda>u. Inr ''ex-page''),
      categorizeTask = (\<lambda>t. Inr Areas)\<rparr>"

definition env_nolink :: env where
  "env_nolink = env_up\<lparr>summarizeLink := (\<lambda>u. Inl Rejected)\<rparr>"

definition env_down :: env where
  "env_down = env_nolink\<lparr>categorizeTask := (\<lambda>t. Inl Rejected)\<rparr>"


section \<open>Properties of the number model\<close>

text \<open>\<open>bits n\<close> is the length of the binary numeral of \<open>n\<close>.\<close>

lemma bits_0: "bits 0 = 0"
  using bits.simps [of 0] by simp

lemma bits_pos: "0 < n \<Longrightarrow> bits n = Suc (bits (n div 2))"
  using bits.simps [of n] by simp

lemma bits_bounds: "0 < n \<Longrightarrow> 2 ^ (bits n - 1) \<le> n \<and> n < 2 ^ bits n"
proof (induction n rule: less_induct)
  case (less n)
  let ?m = "n div 2"
  have b: "bits n = Suc (bits ?m)" using less.prems by (rule bits_pos)
  show ?case
  proof (cases "?m = 0")
    case True
    with less.prems have "n = 1" by (simp add: div_eq_0_iff)
    with b True show ?thesis by (simp add: bits_0)
  next
    case False
    then have m: "0 < ?m" by simp
    have "?m < n" using less.prems by simp
    from less.IH [OF this m] have lo: "2 ^ (bits ?m - 1) \<le> ?m" and hi: "?m < 2 ^ bits ?m"
      by simp_all
    have "0 < bits ?m" using bits_pos [OF m] by simp
    then have "(2::nat) ^ bits ?m = 2 * 2 ^ (bits ?m - 1)"
      by (cases "bits ?m") simp_all
    with lo have "2 ^ bits ?m \<le> 2 * ?m" by simp
    also have "\<dots> \<le> n" by simp
    finally have 1: "2 ^ bits ?m \<le> n" .
    from hi have "2 * ?m + 2 \<le> 2 * 2 ^ bits ?m" by simp
    moreover have "n \<le> 2 * ?m + 1" by presburger
    ultimately have 2: "n < 2 ^ Suc (bits ?m)" by simp
    from 1 2 b show ?thesis by simp
  qed
qed

text \<open>\<open>ilog2\<close> is the binary exponent of a positive rational.\<close>

lemma ilog2_bounds:
  assumes "0 < q"
  shows "2 powi (ilog2 q) \<le> q" and "q < 2 powi (ilog2 q + 1)"
proof -
  have "2 powi (ilog2 q) \<le> q \<and> q < 2 powi (ilog2 q + 1)"
  proof (cases "1 \<le> q")
    case True
    define n where "n = nat \<lfloor>q\<rfloor>"
    from True have f: "1 \<le> \<lfloor>q\<rfloor>" by simp
    then have n: "0 < n" and nq: "(of_nat n :: rat) = of_int \<lfloor>q\<rfloor>" by (simp_all add: n_def)
    from bits_bounds [OF n] have lo: "2 ^ (bits n - 1) \<le> n" and hi: "Suc n \<le> 2 ^ bits n"
      by simp_all
    have bp: "0 < bits n" using bits_pos [OF n] by simp
    have e: "ilog2 q = int (bits n - 1)" using True bp by (simp add: ilog2_def n_def)
    have e1: "ilog2 q + 1 = int (bits n)" using e bp by simp
    have "(2::rat) ^ (bits n - 1) \<le> of_nat n" using of_nat_mono [OF lo, where ?'a = rat] by simp
    moreover have "(of_nat n :: rat) \<le> q" by (simp add: nq)
    ultimately have "2 ^ (bits n - 1) \<le> q" by linarith
    then have 1: "2 powi (ilog2 q) \<le> q" by (simp add: e)
    have "(of_nat (Suc n) :: rat) \<le> 2 ^ bits n" using of_nat_mono [OF hi, where ?'a = rat] by simp
    moreover have "q < of_nat (Suc n)" using nq by simp linarith
    ultimately have "q < 2 ^ bits n" by linarith
    then have 2: "q < 2 powi (ilog2 q + 1)" by (simp add: e1)
    from 1 2 show ?thesis ..
  next
    case False
    define r where "r = 1 / q"
    define m where "m = nat (\<lceil>r\<rceil> - 1)"
    from False assms have r: "1 < r" by (simp add: r_def)
    then have c: "2 \<le> \<lceil>r\<rceil>" by (simp add: le_ceiling_iff)
    then have m: "0 < m" and mr: "(of_nat m :: rat) = of_int \<lceil>r\<rceil> - 1" by (simp_all add: m_def)
    from bits_bounds [OF m] have lo: "2 ^ (bits m - 1) \<le> m" and hi: "Suc m \<le> 2 ^ bits m"
      by simp_all
    have bp: "0 < bits m" using bits_pos [OF m] by simp
    have e: "ilog2 q = - int (bits m)" using False by (simp add: ilog2_def m_def r_def)
    have e1: "ilog2 q + 1 = - int (bits m - 1)" using e bp by simp
    have "(of_nat (Suc m) :: rat) \<le> 2 ^ bits m" using of_nat_mono [OF hi, where ?'a = rat] by simp
    moreover have "r \<le> of_nat (Suc m)" using mr by simp
    ultimately have "r \<le> 2 ^ bits m" by linarith
    then have "1 \<le> q * 2 ^ bits m" using assms by (simp add: r_def field_simps)
    then have 1: "2 powi (ilog2 q) \<le> q"
      by (simp add: e power_int_minus field_simps)
    have "(2::rat) ^ (bits m - 1) \<le> of_nat m" using of_nat_mono [OF lo, where ?'a = rat] by simp
    moreover have "of_nat m < r" using mr by simp linarith
    ultimately have "2 ^ (bits m - 1) < r" by linarith
    then have "q * 2 ^ (bits m - 1) < 1" using assms by (simp add: r_def field_simps)
    then have 2: "q < 2 powi (ilog2 q + 1)"
      unfolding e1 by (simp add: power_int_minus field_simps)
    from 1 2 show ?thesis ..
  qed
  then show "2 powi (ilog2 q) \<le> q" and "q < 2 powi (ilog2 q + 1)" by simp_all
qed

text \<open>Rounding to a 53-bit significand changes a positive number by at most the
  fraction \<open>2\<^sup>-\<^sup>5\<^sup>3\<close> of it.\<close>

lemma round_half_even_error: "\<bar>of_int (round_half_even x) - x\<bar> \<le> 1 / 2"
proof -
  have "of_int \<lfloor>x\<rfloor> \<le> x" and "x < of_int \<lfloor>x\<rfloor> + 1" by linarith+
  then show ?thesis
    by (auto simp: round_half_even_def Let_def abs_le_iff)
qed

lemma fl64_error:
  assumes "0 < q"
  shows "\<bar>fl64 q - q\<bar> \<le> q / 2 ^ 53"
proof -
  define u :: rat where "u = 2 powi (ilog2 q - 52)"
  have u: "0 < u" by (simp add: u_def)
  have f: "fl64 q = of_int (round_half_even (q / u)) * u"
    using assms by (simp add: fl64_def u_def Let_def)
  have "fl64 q - q = (of_int (round_half_even (q / u)) - q / u) * u"
    using u by (simp add: f field_simps)
  then have "\<bar>fl64 q - q\<bar> = \<bar>of_int (round_half_even (q / u)) - q / u\<bar> * u"
    using u by (simp add: abs_mult)
  also have "\<dots> \<le> 1 / 2 * u"
    using round_half_even_error [of "q / u"] u by (intro mult_right_mono) simp_all
  also have "u = 2 powi (ilog2 q) / 2 ^ 52"
    by (simp add: u_def power_int_diff)
  also have "1 / 2 * ((2::rat) powi (ilog2 q) / 2 ^ 52) = 2 powi (ilog2 q) / 2 ^ 53" by simp
  also have "\<dots> \<le> q / 2 ^ 53"
    using ilog2_bounds(1) [OF assms] by (simp add: divide_right_mono)
  finally show ?thesis .
qed

text \<open>\<open>fl64 q\<close> is a nearest one among the multiples of the unit of the binade of \<open>q\<close>.\<close>

lemma round_half_even_nearest:
  "\<bar>of_int (round_half_even x) - x\<bar> \<le> \<bar>of_int m - x\<bar>"
proof -
  define f where "f = \<lfloor>x\<rfloor>"
  define fr :: rat where "fr = of_int f"
  define mr :: rat where "mr = of_int m"
  have b: "fr \<le> x" "x < fr + 1" unfolding fr_def f_def by linarith+
  have "m \<le> f \<or> f + 1 \<le> m" by linarith
  then have c: "mr \<le> fr \<or> fr + 1 \<le> mr"
    unfolding fr_def mr_def by (metis of_int_le_iff of_int_add of_int_1)
  have r: "of_int (round_half_even x) = fr \<and> x - fr \<le> 1 / 2
         \<or> of_int (round_half_even x) = fr + 1 \<and> 1 / 2 \<le> x - fr"
    by (auto simp: round_half_even_def Let_def fr_def f_def)
  from b c r have "\<bar>of_int (round_half_even x) - x\<bar> \<le> \<bar>mr - x\<bar>" by (auto simp: abs_if)
  then show ?thesis by (simp only: mr_def)
qed

lemma fl64_nearest:
  assumes "0 < q"
  shows "\<bar>fl64 q - q\<bar> \<le> \<bar>of_int m * 2 powi (ilog2 q - 52) - q\<bar>"
proof -
  define u :: rat where "u = 2 powi (ilog2 q - 52)"
  have u: "0 < u" by (simp add: u_def)
  have f: "fl64 q = of_int (round_half_even (q / u)) * u"
    using assms by (simp add: fl64_def u_def Let_def)
  have "fl64 q - q = (of_int (round_half_even (q / u)) - q / u) * u"
    using u by (simp add: f field_simps)
  then have "\<bar>fl64 q - q\<bar> = \<bar>of_int (round_half_even (q / u)) - q / u\<bar> * u"
    using u by (simp add: abs_mult)
  also have "\<dots> \<le> \<bar>of_int m - q / u\<bar> * u"
    using round_half_even_nearest [of "q / u" m] u by (intro mult_right_mono) simp_all
  also have "\<dots> = \<bar>(of_int m - q / u) * u\<bar>" using u by (simp add: abs_mult)
  also have "(of_int m - q / u) * u = of_int m * u - q" using u by (simp add: field_simps)
  finally show ?thesis by (simp add: u_def)
qed

lemma ilog2_unique:
  assumes lo: "2 powi k \<le> q" and hi: "q < 2 powi (k + 1)"
  shows "ilog2 q = k"
proof -
  have "(0::rat) < 2 powi k" by simp
  with lo have q: "0 < q" by linarith
  note b = ilog2_bounds [OF q]
  have "\<not> k < ilog2 q"
  proof
    assume "k < ilog2 q"
    then have "k + 1 \<le> ilog2 q" by simp
    then have "(2::rat) powi (k + 1) \<le> 2 powi (ilog2 q)" by (intro power_int_increasing) simp_all
    with b(1) hi show False by linarith
  qed
  moreover have "\<not> ilog2 q < k"
  proof
    assume "ilog2 q < k"
    then have "ilog2 q + 1 \<le> k" by simp
    then have "(2::rat) powi (ilog2 q + 1) \<le> 2 powi k" by (intro power_int_increasing) simp_all
    with b(2) lo show False by linarith
  qed
  ultimately show ?thesis by simp
qed

text \<open>A number with a 53-bit significand is a double: rounding leaves it as it is.\<close>

lemma round_half_even_of_int: "round_half_even (of_int m) = m"
  by (simp add: round_half_even_def)

lemma fl64_representable:
  assumes "2 ^ 52 \<le> m" and "m < 2 ^ 53"
  shows "fl64 (of_int m * 2 powi e) = of_int m * 2 powi e"
proof -
  define q :: rat where "q = of_int m * 2 powi e"
  have p: "(0::rat) < 2 powi e" by simp
  have "(of_int (2 ^ 52) :: rat) \<le> of_int m" and "(of_int m :: rat) < of_int (2 ^ 53)"
    using assms by (simp_all only: of_int_le_iff of_int_less_iff)
  then have m: "(2::rat) ^ 52 \<le> of_int m" "(of_int m :: rat) < 2 ^ 53" by simp_all
  have "(2::rat) powi (e + 52) = 2 ^ 52 * 2 powi e" by (simp add: power_int_add)
  also have "\<dots> \<le> q" unfolding q_def using m(1) p by (intro mult_right_mono) simp_all
  finally have lo: "2 powi (e + 52) \<le> q" .
  have "q < 2 ^ 53 * 2 powi e" unfolding q_def using m(2) p by (intro mult_strict_right_mono)
  also have "\<dots> = 2 powi (e + 52 + 1)" by (simp add: power_int_add)
  finally have hi: "q < 2 powi (e + 52 + 1)" .
  have e: "ilog2 q = e + 52" using lo hi by (rule ilog2_unique)
  have q0: "0 < q" using lo zero_less_power_int [of "2::rat" "e + 52"] by linarith
  then have "\<bar>q\<bar> = q" and "q \<noteq> 0" by simp_all
  then have "fl64 q = of_int (round_half_even (q / 2 powi e)) * 2 powi e"
    by (simp add: fl64_def e Let_def)
  also have "q / 2 powi e = of_int m" by (simp add: q_def)
  finally show ?thesis by (simp add: round_half_even_of_int q_def)
qed

lemma Math_round_ge: "of_int n - 1 / 2 \<le> y \<Longrightarrow> n \<le> Math_round y"
  by (simp add: Math_round_def le_floor_iff)

lemma Math_round_le: "y < of_int n + 1 / 2 \<Longrightarrow> Math_round y \<le> n"
proof -
  assume "y < of_int n + 1 / 2"
  then have "y + 1 / 2 < of_int (n + 1)" by simp
  then have "\<lfloor>y + 1 / 2\<rfloor> < n + 1" by (simp only: floor_less_iff)
  then show ?thesis by (simp add: Math_round_def)
qed

lemma progress_zero: "Math_round (js_mul (js_div 0 b) 100) = 0"
proof -
  have "\<lfloor>1 / 2 :: rat\<rfloor> = 0" by (rule floor_unique) simp_all
  then show ?thesis by (simp add: Math_round_def js_mul_def js_div_def fl64_def)
qed

text \<open>The computed \<^verbatim>\<open>(c / t) * 100\<close> is within \<open>2\<^sup>-\<^sup>4\<^sup>5\<close> of the exact percentage.\<close>

lemma progress_error:
  fixes c t :: nat
  assumes "0 < c" and "c \<le> t"
  shows "\<bar>js_mul (js_div (of_nat c) (of_nat t)) 100 - 100 * of_nat c / of_nat t\<bar> < 1 / 2 ^ 45"
proof -
  define x :: rat where "x = of_nat c / of_nat t"
  define x1 where "x1 = fl64 x"
  define y where "y = fl64 (x1 * 100)"
  from assms have t: "0 < t" by simp
  have x0: "0 < x" using assms t by (simp add: x_def)
  have xle: "x \<le> 1" using assms t by (simp add: x_def)
  have e1: "\<bar>x1 - x\<bar> \<le> x / 2 ^ 53" unfolding x1_def using x0 by (rule fl64_error)
  have "x / 2 ^ 53 \<le> 1 / 2 ^ 53" using xle by (simp add: divide_right_mono)
  with e1 have e1': "\<bar>x1 - x\<bar> \<le> 1 / 2 ^ 53" by linarith
  have "x / 2 ^ 53 < x" using x0 by simp
  with e1 have x1pos: "0 < x1" by linarith
  have x1le: "x1 \<le> 1 + 1 / 2 ^ 53" using e1' xle by linarith
  have p: "0 < x1 * 100" using x1pos by simp
  have e2: "\<bar>y - x1 * 100\<bar> \<le> x1 * 100 / 2 ^ 53" unfolding y_def using p by (rule fl64_error)
  have "x1 * 100 / 2 ^ 53 \<le> (1 + 1 / 2 ^ 53) * 100 / 2 ^ 53"
    using x1le by (intro divide_right_mono mult_right_mono) simp_all
  with e2 have e2': "\<bar>y - x1 * 100\<bar> \<le> (1 + 1 / 2 ^ 53) * 100 / 2 ^ 53" by linarith
  have "\<bar>(y - x1 * 100) + 100 * (x1 - x)\<bar> \<le> \<bar>y - x1 * 100\<bar> + \<bar>100 * (x1 - x)\<bar>"
    by (rule abs_triangle_ineq)
  moreover have "(y - x1 * 100) + 100 * (x1 - x) = y - 100 * x" by simp
  moreover have "\<bar>100 * (x1 - x)\<bar> = 100 * \<bar>x1 - x\<bar>" by (simp only: abs_mult abs_numeral)
  ultimately have "\<bar>y - 100 * x\<bar> \<le> \<bar>y - x1 * 100\<bar> + 100 * \<bar>x1 - x\<bar>"
    by (simp only:)
  also have "\<dots> \<le> (1 + 1 / 2 ^ 53) * 100 / 2 ^ 53 + 100 * (1 / 2 ^ 53)"
    using e2' e1' by (intro add_mono mult_left_mono) simp_all
  also have "\<dots> < 1 / 2 ^ 45" by simp
  finally have "\<bar>y - 100 * x\<bar> < 1 / 2 ^ 45" .
  then show ?thesis
    by (simp add: y_def x1_def x_def js_mul_def js_div_def)
qed

text \<open>
  The exact percentage of \<open>c\<close> out of \<open>t\<close> is a multiple of \<open>1 / t\<close>: when it is above or
  below a half integer \<open>k / 2\<close>, it is so by \<open>1 / (2 t)\<close> at least, which for an array
  length \<open>t\<close> is more than the error of the two roundings.
\<close>

lemma progress_separation:
  fixes c t :: nat and k :: int
  assumes "0 < t" and "t < 2 ^ 32"
  shows "k * int t + 1 \<le> int (200 * c) \<Longrightarrow>
           of_int k / 2 + 1 / 2 ^ 33 \<le> (100 * of_nat c / of_nat t :: rat)"
    and "int (200 * c) + 1 \<le> k * int t \<Longrightarrow>
           (100 * of_nat c / of_nat t :: rat) \<le> of_int k / 2 - 1 / 2 ^ 33"
proof -
  have tr: "(0::rat) < of_nat t" using assms by simp
  have "(of_nat t :: rat) < of_nat (2 ^ 32)" using assms(2) by (simp only: of_nat_less_iff)
  then have small: "(of_nat t :: rat) / 2 ^ 32 \<le> 1" by simp
  {
    assume "k * int t + 1 \<le> int (200 * c)"
    then have "(of_int (k * int t + 1) :: rat) \<le> of_int (int (200 * c))"
      by (simp only: of_int_le_iff)
    then have "of_int k * of_nat t + 1 \<le> (200 * of_nat c :: rat)" by simp
    with small have "of_int k * of_nat t + of_nat t / 2 ^ 32 \<le> (200 * of_nat c :: rat)"
      by linarith
    then have "(of_int k / 2 + 1 / 2 ^ 33) * of_nat t \<le> (100 * of_nat c :: rat)"
      by (simp add: field_simps)
    then show "of_int k / 2 + 1 / 2 ^ 33 \<le> (100 * of_nat c / of_nat t :: rat)"
      using tr by (simp add: pos_le_divide_eq)
  }
  {
    assume "int (200 * c) + 1 \<le> k * int t"
    then have "(of_int (int (200 * c) + 1) :: rat) \<le> of_int (k * int t)"
      by (simp only: of_int_le_iff)
    then have "(200 * of_nat c :: rat) + 1 \<le> of_int k * of_nat t" by simp
    with small have "(200 * of_nat c :: rat) + of_nat t / 2 ^ 32 \<le> of_int k * of_nat t"
      by linarith
    then have "(100 * of_nat c :: rat) \<le> (of_int k / 2 - 1 / 2 ^ 33) * of_nat t"
      by (simp add: field_simps)
    then show "(100 * of_nat c / of_nat t :: rat) \<le> of_int k / 2 - 1 / 2 ^ 33"
      using tr by (simp add: pos_divide_le_eq)
  }
qed

section \<open>Properties of ProjectView\<close>

subsection \<open>Active projects\<close>

text \<open>
  C2. A project is in the list \<open>activeProjects\<close> exactly when it is one of the projects
  and it has no items or fewer completed items than items. The instance below it
  takes a project with the items [done, done], which is left out, and one with the
  items [done, pending], which is kept.
\<close>

theorem activeProjects_iff:
  "p \<in> set (activeProjects projects) \<longleftrightarrow>
     p \<in> set projects \<and>
     (length (items p) = 0 \<or> length (filter item_completed (items p)) < length (items p))"
  by (auto simp: activeProjects_def Let_def)

theorem activeProjects_iff_witness:
  "project_with [item True, item True] \<notin>
     set (activeProjects [project_with [item True, item True], project_with [item True, item False]])
   \<and> project_with [item True, item False] \<in>
     set (activeProjects [project_with [item True, item True], project_with [item True, item False]])"
  using activeProjects_iff [of "project_with [item True, item True]"
          "[project_with [item True, item True], project_with [item True, item False]]"]
        activeProjects_iff [of "project_with [item True, item False]"
          "[project_with [item True, item True], project_with [item True, item False]]"]
  by (simp add: project_with_def item_def)

subsection \<open>Saving an edited project\<close>

text \<open>
  C8. The project handed to \<^verbatim>\<open>onUpdate\<close> has the id, slug, items, term and status of
  the project being edited, and the title, description and deadline of the edit state;
  saving an edit state that was not changed gives the project back.
\<close>

theorem onSave_frame:
  "project_id (onSave p ed) = project_id p \<and>
   project_slug (onSave p ed) = project_slug p \<and>
   items (onSave p ed) = items p \<and>
   project_term (onSave p ed) = project_term p \<and>
   status (onSave p ed) = status p \<and>
   project_title (onSave p ed) = edit_title ed \<and>
   description (onSave p ed) = edit_description ed \<and>
   project_deadline (onSave p ed) = edit_deadline ed \<and>
   onSave p (initEditData p) = p"
  by (simp add: onSave_def initEditData_def)


text \<open>Whatever is typed into the three inputs, saving keeps the other fields.\<close>

lemma onSave_after_inputs:
  "items (onSave p (foldl onChange (initEditData p) inputs)) = items p"
  "project_id (onSave p (foldl onChange (initEditData p) inputs)) = project_id p"
  "project_slug (onSave p (foldl onChange (initEditData p) inputs)) = project_slug p"
  by (simp_all add: onSave_def)

subsection \<open>Progress\<close>

lemma getProgress_counts:
  "getProgress p =
     (if items p = [] then 0
      else Math_round (js_mul (js_div (of_nat (completedCount p)) (of_nat (totalCount p))) 100))"
  by (simp add: getProgress_def completedCount_def totalCount_def Let_def)

lemma completedCount_le: "completedCount p \<le> totalCount p"
  by (simp add: completedCount_def totalCount_def)

lemma all_completed_iff:
  "list_all item_completed (items p) \<longleftrightarrow> completedCount p = totalCount p"
proof (cases "\<forall>x \<in> set (items p). item_completed x")
  case True
  then have "filter item_completed (items p) = items p" by (simp add: filter_id_conv)
  with True show ?thesis by (simp add: completedCount_def totalCount_def list_all_iff)
next
  case False
  then obtain x where "x \<in> set (items p)" and "\<not> item_completed x" by blast
  then have "length (filter item_completed (items p)) < length (items p)"
    by (rule length_filter_less)
  with False show ?thesis by (simp add: completedCount_def totalCount_def list_all_iff)
qed

lemma exact_tie_iff:
  assumes "0 < t"
  shows "exact_tie c t \<longleftrightarrow> (\<exists>k::int. (of_nat (100 * c) / of_nat t :: rat) = of_int k + 1 / 2)"
proof
  assume "exact_tie c t"
  then have d: "t dvd 200 * c" and o: "odd (200 * c div t)" by (simp_all add: exact_tie_def)
  from o obtain j where j: "200 * c div t = 2 * j + 1" by (auto elim: oddE)
  from d have "200 * c = (200 * c div t) * t" by simp
  with j have "200 * c = (2 * j + 1) * t" by simp
  then have "(of_nat (200 * c) :: rat) = of_nat ((2 * j + 1) * t)" by (simp only:)
  then have "(of_nat (100 * c) / of_nat t :: rat) = of_int (int j) + 1 / 2"
    using assms by (simp add: field_simps)
  then show "\<exists>k::int. (of_nat (100 * c) / of_nat t :: rat) = of_int k + 1 / 2" ..
next
  assume "\<exists>k::int. (of_nat (100 * c) / of_nat t :: rat) = of_int k + 1 / 2"
  then obtain k :: int where "(of_nat (100 * c) / of_nat t :: rat) = of_int k + 1 / 2" ..
  then have "(of_int (int (200 * c)) :: rat) = of_int ((2 * k + 1) * int t)"
    using assms by (simp add: field_simps)
  then have eq: "int (200 * c) = (2 * k + 1) * int t" by (simp only: of_int_eq_iff)
  then have "int t dvd int (200 * c)" by simp
  then have d: "t dvd 200 * c" by (simp only: int_dvd_int_iff)
  have "int (200 * c div t) = int (200 * c) div int t" by (simp add: zdiv_int)
  also have "\<dots> = (2 * k + 1) * int t div int t" by (simp only: eq)
  also have "\<dots> = 2 * k + 1" using assms by simp
  finally have q: "int (200 * c div t) = 2 * k + 1" .
  have "odd (int (200 * c div t))" unfolding q by simp
  then have "odd (200 * c div t)" by simp
  with d show "exact_tie c t" by (simp add: exact_tie_def)
qed

lemma progress_nontie:
  fixes c t :: nat
  assumes t: "0 < t" and ct: "c \<le> t" and small: "t < 2 ^ 32" and nt: "\<not> exact_tie c t"
  shows "Math_round (js_mul (js_div (of_nat c) (of_nat t)) 100) =
           \<lfloor>of_nat (100 * c) / of_nat t + 1 / 2 :: rat\<rfloor>"
proof (cases "c = 0")
  case True
  have "\<lfloor>1 / 2 :: rat\<rfloor> = 0" by (rule floor_unique) simp_all
  with True show ?thesis by (simp add: progress_zero)
next
  case False
  define z :: rat where "z = 100 * of_nat c / of_nat t"
  define y where "y = js_mul (js_div (of_nat c) (of_nat t)) 100"
  define n where "n = \<lfloor>z + 1 / 2\<rfloor>"
  have tr: "(0::rat) < of_nat t" using t by simp
  have zt: "z * of_nat t = 100 * of_nat c" using tr by (simp add: z_def)
  have "of_int n \<le> z + 1 / 2" and "z + 1 / 2 < of_int n + 1" unfolding n_def by linarith+
  then have "(of_int n - 1 / 2) * of_nat t \<le> z * of_nat t"
    and "z * of_nat t < (of_int n + 1 / 2) * of_nat t"
    using tr by (simp_all add: mult_le_cancel_right mult_less_cancel_right)
  then have "(of_int (2 * n - 1) * of_nat t :: rat) \<le> 200 * of_nat c"
    and "(200 * of_nat c :: rat) < of_int (2 * n + 1) * of_nat t"
    unfolding zt by (simp_all add: algebra_simps)
  then have "(of_int ((2 * n - 1) * int t) :: rat) \<le> of_int (int (200 * c))"
    and "(of_int (int (200 * c)) :: rat) < of_int ((2 * n + 1) * int t)"
    by simp_all
  then have lo: "(2 * n - 1) * int t \<le> int (200 * c)"
    and hi: "int (200 * c) < (2 * n + 1) * int t"
    by (simp_all only: of_int_le_iff of_int_less_iff)
  have ne: "int (200 * c) \<noteq> (2 * n - 1) * int t"
  proof
    assume eq: "int (200 * c) = (2 * n - 1) * int t"
    then have "int t dvd int (200 * c)" by simp
    then have d: "t dvd 200 * c" by (simp only: int_dvd_int_iff)
    have "int (200 * c div t) = int (200 * c) div int t" by (simp add: zdiv_int)
    also have "\<dots> = (2 * n - 1) * int t div int t" by (simp only: eq)
    also have "\<dots> = 2 * n - 1" using t by simp
    finally have q: "int (200 * c div t) = 2 * n - 1" .
    have "odd (int (200 * c div t))" unfolding q by simp
    then have "odd (200 * c div t)" by simp
    with d nt show False by (simp add: exact_tie_def)
  qed
  with lo have lo': "(2 * n - 1) * int t + 1 \<le> int (200 * c)" by linarith
  from hi have hi': "int (200 * c) + 1 \<le> (2 * n + 1) * int t" by linarith
  define d :: rat where "d = 1 / 2 ^ 45"
  define s :: rat where "s = 1 / 2 ^ 33"
  have ds: "d < s" by (simp add: d_def s_def)
  from progress_separation(1) [OF t small lo']
  have 1: "of_int n - 1 / 2 + s \<le> z" by (simp add: z_def s_def field_simps)
  from progress_separation(2) [OF t small hi']
  have 2: "z \<le> of_int n + 1 / 2 - s" by (simp add: z_def s_def field_simps)
  have "0 < c" using False by simp
  from progress_error [OF this ct] have "\<bar>y - z\<bar> < d"
    by (simp only: y_def z_def d_def)
  then have e: "y - z < d" "z - y < d" by (simp_all add: abs_less_iff)
  from e 1 2 ds have "of_int n - 1 / 2 \<le> y" and "y < of_int n + 1 / 2" by linarith+
  then have "n \<le> Math_round y" and "Math_round y \<le> n"
    by (simp_all add: Math_round_ge Math_round_le)
  then have "Math_round y = n" by simp
  then show ?thesis by (simp add: y_def n_def z_def)
qed

lemma tie_199_of_200: "Math_round (js_mul (fl64 (199 / 200)) 100) = 100"
  by code_simp

lemma progress_range:
  fixes c t :: nat
  assumes t: "0 < t" and ct: "c \<le> t" and small: "t < 2 ^ 32"
  defines "r \<equiv> Math_round (js_mul (js_div (of_nat c) (of_nat t)) 100)"
  shows "0 \<le> r" and "r \<le> 100" and "r = 100 \<longleftrightarrow> 199 * t \<le> 200 * c"
proof -
  have "0 \<le> r \<and> r \<le> 100 \<and> (r = 100 \<longleftrightarrow> 199 * t \<le> 200 * c)"
  proof (cases "c = 0")
    case True
    with t show ?thesis by (simp add: r_def progress_zero)
  next
    case False
    define z :: rat where "z = 100 * of_nat c / of_nat t"
    define y where "y = js_mul (js_div (of_nat c) (of_nat t)) 100"
    have r: "r = Math_round y" by (simp add: r_def y_def)
    have tr: "(0::rat) < of_nat t" using t by simp
    have "0 < c" using False by simp
    define d :: rat where "d = 1 / 2 ^ 45"
    define s :: rat where "s = 1 / 2 ^ 33"
    have d: "d < s" "d < 1 / 2" by (simp_all add: d_def s_def)
    from progress_error [OF \<open>0 < c\<close> ct] have "\<bar>y - z\<bar> < d"
      by (simp only: y_def z_def d_def)
    then have e: "y - z < d" "z - y < d" by (simp_all add: abs_less_iff)
    have z0: "0 \<le> z" by (simp add: z_def)
    have "(of_nat c :: rat) \<le> of_nat t" using ct by (simp only: of_nat_le_iff)
    then have z100: "z \<le> 100" using tr by (simp add: z_def pos_divide_le_eq)
    from e d z0 have "of_int 0 - 1 / 2 \<le> y" by simp
    then have r0: "0 \<le> r" unfolding r by (rule Math_round_ge)
    from e d z100 have "y < of_int 100 + 1 / 2" by simp
    then have r100: "r \<le> 100" unfolding r by (rule Math_round_le)
    have iff: "r = 100 \<longleftrightarrow> 199 * t \<le> 200 * c"
    proof (cases "199 * t" "200 * c" rule: linorder_cases)
      case less
      then have "199 * int t + 1 \<le> int (200 * c)" by simp
      from progress_separation(1) [OF t small this]
      have "199 / 2 + s \<le> z" by (simp add: z_def s_def)
      with e d have "of_int 100 - 1 / 2 \<le> y" by simp
      then have "100 \<le> r" unfolding r by (rule Math_round_ge)
      with r100 less show ?thesis by simp
    next
      case equal
      then have "(of_nat (199 * t) :: rat) = of_nat (200 * c)" by (simp only:)
      then have "(of_nat c :: rat) / of_nat t = 199 / 200" using tr by (simp add: field_simps)
      then have "r = 100" unfolding r_def js_div_def by (simp only: tie_199_of_200)
      with equal show ?thesis by simp
    next
      case greater
      then have "int (200 * c) + 1 \<le> 199 * int t" by simp
      from progress_separation(2) [OF t small this]
      have "z \<le> 199 / 2 - s" by (simp add: z_def s_def)
      with e d have "y < of_int 99 + 1 / 2" by simp
      then have "r \<le> 99" unfolding r by (rule Math_round_le)
      with greater show ?thesis by simp
    qed
    from r0 r100 iff show ?thesis by simp
  qed
  then show "0 \<le> r" and "r \<le> 100" and "r = 100 \<longleftrightarrow> 199 * t \<le> 200 * c" by simp_all
qed

lemma counts_1_of_3:
  "totalCount (project_with [item True, item False, item False]) = 3"
  "completedCount (project_with [item True, item False, item False]) = 1"
  by (simp_all add: totalCount_def completedCount_def project_with_def item_def)

lemma counts_2_of_3:
  "totalCount (project_with [item True, item True, item False]) = 3"
  "completedCount (project_with [item True, item True, item False]) = 2"
  by (simp_all add: totalCount_def completedCount_def project_with_def item_def)

lemma counts_23_of_40:
  "totalCount project_23_of_40 = 40" "completedCount project_23_of_40 = 23"
  by (simp_all add: totalCount_def completedCount_def project_23_of_40_def project_with_def
      item_def)

lemma counts_200_of_201:
  "totalCount project_200_of_201 = 201" "completedCount project_200_of_201 = 200"
  by (simp_all add: totalCount_def completedCount_def project_200_of_201_def project_with_def
      item_def)

text \<open>The doubles of the first instance: 0.575 and 57.49999999999999, as fractions.\<close>

lemma double_23_of_40:
  "js_div 23 40 = 2589569785738035 / 2 ^ 52"
  "js_mul (js_div 23 40) 100 = 8092405580431359 / 2 ^ 47"
  by code_simp+

lemma progress_23_of_40: "Math_round (js_mul (js_div 23 40) 100) = 57"
  by code_simp

lemma progress_200_of_201: "Math_round (js_mul (js_div 200 201) 100) = 100"
  by code_simp

text \<open>
  Away from the ties \<open>getProgress\<close> is the progress of the specification: for an item
  list of an array's length (below \<open>2\<^sup>3\<^sup>2\<close>) whose exact percentage is not halfway
  between two integers. So it is for 1 of 3 items, with progress 33, and for 2 of 3,
  with progress 67.
\<close>

lemma getProgress_half_up:
  assumes "totalCount p < 2 ^ 32" and "\<not> exact_tie (completedCount p) (totalCount p)"
  shows "getProgress p = spec_progress p"
proof (cases "items p = []")
  case True
  then show ?thesis by (simp add: getProgress_counts spec_progress_def)
next
  case False
  then have "0 < totalCount p" by (simp add: totalCount_def)
  from progress_nontie [OF this completedCount_le assms] False
  show ?thesis by (simp add: getProgress_counts spec_progress_def half_up_def)
qed

lemma getProgress_thirds:
  "getProgress (project_with [item True, item False, item False]) = 33
   \<and> spec_progress (project_with [item True, item False, item False]) = 33
   \<and> getProgress (project_with [item True, item True, item False]) = 67
   \<and> spec_progress (project_with [item True, item True, item False]) = 67"
proof -
  let ?p = "project_with [item True, item False, item False]"
  let ?q = "project_with [item True, item True, item False]"
  have f: "\<lfloor>100 / 3 + 1 / 2 :: rat\<rfloor> = 33" "\<lfloor>200 / 3 + 1 / 2 :: rat\<rfloor> = 67"
    by (rule floor_unique; simp)+
  have s: "totalCount ?p < 2 ^ 32" "totalCount ?q < 2 ^ 32"
    by (simp_all add: counts_1_of_3 counts_2_of_3)
  have n: "\<not> exact_tie (completedCount ?p) (totalCount ?p)"
    "\<not> exact_tie (completedCount ?q) (totalCount ?q)"
    by (simp_all add: counts_1_of_3 counts_2_of_3 exact_tie_def)
  have i: "items ?p \<noteq> []" "items ?q \<noteq> []" by (simp_all add: project_with_def)
  show ?thesis
    using getProgress_half_up [OF s(1) n(1)] getProgress_half_up [OF s(2) n(2)] i f
    by (simp add: spec_progress_def half_up_def counts_1_of_3 counts_2_of_3)
qed

text \<open>At a tie it is the progress of the specification or one less.\<close>

lemma progress_near:
  fixes c t :: nat
  assumes t: "0 < t" and ct: "c \<le> t" and small: "t < 2 ^ 32"
  shows "\<lfloor>of_nat (100 * c) / of_nat t + 1 / 2 :: rat\<rfloor> - 1
           \<le> Math_round (js_mul (js_div (of_nat c) (of_nat t)) 100)"
    and "Math_round (js_mul (js_div (of_nat c) (of_nat t)) 100)
           \<le> \<lfloor>of_nat (100 * c) / of_nat t + 1 / 2 :: rat\<rfloor>"
proof -
  define z :: rat where "z = 100 * of_nat c / of_nat t"
  define y where "y = js_mul (js_div (of_nat c) (of_nat t)) 100"
  define n where "n = \<lfloor>z + 1 / 2\<rfloor>"
  have "n - 1 \<le> Math_round y \<and> Math_round y \<le> n"
  proof (cases "c = 0")
    case True
    have "\<lfloor>1 / 2 :: rat\<rfloor> = 0" by (rule floor_unique) simp_all
    with True show ?thesis by (simp add: progress_zero y_def n_def z_def)
  next
    case False
    have tr: "(0::rat) < of_nat t" using t by simp
    have zt: "z * of_nat t = 100 * of_nat c" using tr by (simp add: z_def)
    have nl: "of_int n \<le> z + 1 / 2" and "z + 1 / 2 < of_int n + 1" unfolding n_def by linarith+
    then have "z * of_nat t < (of_int n + 1 / 2) * of_nat t"
      using tr by (simp add: mult_less_cancel_right)
    then have "(200 * of_nat c :: rat) < of_int (2 * n + 1) * of_nat t"
      unfolding zt by (simp add: algebra_simps)
    then have "(of_int (int (200 * c)) :: rat) < of_int ((2 * n + 1) * int t)" by simp
    then have "int (200 * c) < (2 * n + 1) * int t" by (simp only: of_int_less_iff)
    then have hi': "int (200 * c) + 1 \<le> (2 * n + 1) * int t" by linarith
    define d :: rat where "d = 1 / 2 ^ 45"
    define s :: rat where "s = 1 / 2 ^ 33"
    have ds: "d < s" "d < 1" by (simp_all add: d_def s_def)
    from progress_separation(2) [OF t small hi']
    have 2: "z \<le> of_int n + 1 / 2 - s" by (simp add: z_def s_def field_simps)
    have "0 < c" using False by simp
    from progress_error [OF this ct] have "\<bar>y - z\<bar> < d"
      by (simp only: y_def z_def d_def)
    then have e: "y - z < d" "z - y < d" by (simp_all add: abs_less_iff)
    from e nl ds have "of_int (n - 1) - 1 / 2 \<le> y" by simp
    moreover from e 2 ds have "y < of_int n + 1 / 2" by linarith
    ultimately have "of_int (n - 1) - 1 / 2 \<le> y" and "y < of_int n + 1 / 2" by simp_all
    then show ?thesis by (simp_all add: Math_round_ge Math_round_le)
  qed
  then show "\<lfloor>of_nat (100 * c) / of_nat t + 1 / 2 :: rat\<rfloor> - 1
           \<le> Math_round (js_mul (js_div (of_nat c) (of_nat t)) 100)"
    and "Math_round (js_mul (js_div (of_nat c) (of_nat t)) 100)
           \<le> \<lfloor>of_nat (100 * c) / of_nat t + 1 / 2 :: rat\<rfloor>"
    by (simp_all add: y_def n_def z_def)
qed

lemma getProgress_near:
  assumes "totalCount p < 2 ^ 32"
  shows "spec_progress p - 1 \<le> getProgress p" and "getProgress p \<le> spec_progress p"
proof -
  have "spec_progress p - 1 \<le> getProgress p \<and> getProgress p \<le> spec_progress p"
  proof (cases "items p = []")
    case True
    then show ?thesis by (simp add: getProgress_counts spec_progress_def)
  next
    case False
    then have "0 < totalCount p" by (simp add: totalCount_def)
    from progress_near [OF this completedCount_le assms] False
    show ?thesis by (simp add: getProgress_counts spec_progress_def half_up_def)
  qed
  then show "spec_progress p - 1 \<le> getProgress p" and "getProgress p \<le> spec_progress p"
    by simp_all
qed

text \<open>
  Multiplying before dividing, \<^verbatim>\<open>Math.round(100 * completed / total)\<close>, rounds the tie of
  23 out of 40 up: 2300 and 57.5 are doubles.
\<close>

lemma multiply_first_23_of_40: "Math_round (js_div (js_mul 100 23) 40) = 58"
  by code_simp

text \<open>
  C3. The progress of a project is to be 0 without items and otherwise the exact
  percentage \<open>100 * completedCount / totalCount\<close> rounded half up. For the project
  with 40 items of which 23 are completed, \<open>getProgress\<close> is 57, where the exact
  percentage 57.5 rounds half up to 58: the double nearest to 23 / 40 lies below it,
  and \<^verbatim>\<open>(23 / 40) * 100\<close> is the double 57.49999999999999.
\<close>

theorem getProgress_23_of_40:
  "getProgress project_23_of_40 = 57 \<and> spec_progress project_23_of_40 = 58"
proof -
  have i: "items project_23_of_40 \<noteq> []" by (simp add: project_23_of_40_def project_with_def)
  have "\<lfloor>2300 / 40 + 1 / 2 :: rat\<rfloor> = 58" by (rule floor_unique; simp)
  with i show ?thesis
    by (simp add: getProgress_counts spec_progress_def half_up_def counts_23_of_40
        progress_23_of_40)
qed

text \<open>
  C4, as stated, fails: a project with 201 items of which 200 are completed has
  progress 100.
\<close>

theorem getProgress_range_counterexample:
  "items project_200_of_201 \<noteq> []
   \<and> getProgress project_200_of_201 = 100
   \<and> \<not> list_all item_completed (items project_200_of_201)"
proof -
  have i: "items project_200_of_201 \<noteq> []"
    and n: "\<not> list_all item_completed (items project_200_of_201)"
    by (simp_all add: project_200_of_201_def project_with_def item_def)
  with i show ?thesis
    by (simp add: getProgress_counts counts_200_of_201 progress_200_of_201)
qed

text \<open>
  C4, amended. For a project with items, as many as an array can hold, the progress
  lies between 0 and 100, and it is 100 exactly when at least 199 of every 200 items
  are completed. So it is 100 when every item is completed, and for fewer than 200
  items only then.
\<close>

theorem getProgress_range:
  assumes "items p \<noteq> []" and "totalCount p < 2 ^ 32"
  shows "0 \<le> getProgress p \<and> getProgress p \<le> 100
       \<and> (getProgress p = 100 \<longleftrightarrow> 199 * totalCount p \<le> 200 * completedCount p)
       \<and> (list_all item_completed (items p) \<longrightarrow> getProgress p = 100)
       \<and> (getProgress p = 100 \<and> totalCount p < 200 \<longrightarrow> list_all item_completed (items p))"
proof -
  from assms(1) have t: "0 < totalCount p" by (simp add: totalCount_def)
  have g: "getProgress p =
      Math_round (js_mul (js_div (of_nat (completedCount p)) (of_nat (totalCount p))) 100)"
    using assms(1) by (simp add: getProgress_counts)
  note r = progress_range [OF t completedCount_le assms(2), folded g]
  have le: "completedCount p \<le> totalCount p" by (rule completedCount_le)
  have 1: "list_all item_completed (items p) \<longrightarrow> getProgress p = 100"
    using r(3) by (simp add: all_completed_iff)
  have 2: "getProgress p = 100 \<and> totalCount p < 200 \<longrightarrow> list_all item_completed (items p)"
    using r(3) le by (auto simp: all_completed_iff)
  from r 1 2 show ?thesis by simp
qed

theorem getProgress_range_witness:
  "0 \<le> getProgress (project_with [item True, item False, item False])
   \<and> getProgress (project_with [item True, item False, item False]) \<le> 100
   \<and> getProgress (project_with [item True, item False, item False]) \<noteq> 100
   \<and> getProgress (project_with [item True, item True]) = 100"
proof -
  let ?p = "project_with [item True, item False, item False]"
  let ?q = "project_with [item True, item True]"
  have c: "totalCount ?q = 2" "completedCount ?q = 2"
    by (simp_all add: totalCount_def completedCount_def project_with_def item_def)
  have i: "items ?p \<noteq> []" "items ?q \<noteq> []" by (simp_all add: project_with_def)
  have s: "totalCount ?p < 2 ^ 32" "totalCount ?q < 2 ^ 32" by (simp_all add: counts_1_of_3 c)
  have a: "list_all item_completed (items ?q)" by (simp add: project_with_def item_def)
  show ?thesis
    using getProgress_range [OF i(1) s(1)] getProgress_range [OF i(2) s(2)] a
    by (simp add: counts_1_of_3)
qed


section \<open>Properties of DailyView\<close>

subsection \<open>Toggling a task\<close>

lemma find_distinct_nth:
  "distinct (map f xs) \<Longrightarrow> k < length xs \<Longrightarrow> find (\<lambda>t. f t = f (xs ! k)) xs = Some (xs ! k)"
proof (induction xs arbitrary: k)
  case Nil
  then show ?case by simp
next
  case (Cons x xs)
  show ?case
  proof (cases k)
    case 0
    then show ?thesis by simp
  next
    case (Suc j)
    with Cons.prems have j: "j < length xs" and "f x \<notin> f ` set xs" and d: "distinct (map f xs)"
      by auto
    then have "f x \<noteq> f (xs ! j)" by (metis imageI nth_mem)
    with Cons.IH [OF d j] Suc show ?thesis by simp
  qed
qed

lemma map_distinct_update:
  "distinct (map f xs) \<Longrightarrow> k < length xs \<Longrightarrow>
   map (\<lambda>t. if f t = f (xs ! k) then g t else t) xs = xs[k := g (xs ! k)]"
proof (induction xs arbitrary: k)
  case Nil
  then show ?case by simp
next
  case (Cons x xs)
  show ?case
  proof (cases k)
    case 0
    from Cons.prems have "f x \<notin> f ` set xs" by simp
    then have "\<And>y. y \<in> set xs \<Longrightarrow> f y \<noteq> f x" by (metis imageI)
    then have "map (\<lambda>t. if f t = f x then g t else t) xs = xs"
      by (intro map_idI) simp
    with 0 show ?thesis by simp
  next
    case (Suc j)
    with Cons.prems have j: "j < length xs" and "f x \<notin> f ` set xs" and d: "distinct (map f xs)"
      by auto
    then have "f x \<noteq> f (xs ! j)" by (metis imageI nth_mem)
    with Cons.IH [OF d j] Suc show ?thesis by simp
  qed
qed

text \<open>
  C7. In a collection whose ids are distinct, toggling the id of the task at position
  \<open>k\<close> leaves the collection as it is when that task is a resource, and otherwise
  replaces that task by itself with \<open>task_completed\<close> negated, every other position
  staying the same.
\<close>

theorem toggleTask_frame:
  assumes "distinct (map task_id tasks)" and "k < length tasks"
  shows "toggleTask (task_id (tasks ! k)) tasks =
           (if category (tasks ! k) = Resources then tasks
            else tasks[k := (tasks ! k)\<lparr>task_completed := \<not> task_completed (tasks ! k)\<rparr>])"
  using find_distinct_nth [OF assms, of ] map_distinct_update [OF assms]
  by (simp add: toggleTask_def)

theorem toggleTask_frame_witness:
  "toggleTask ''a'' [task_ex ''a'' Resources False, task_ex ''b'' Areas False] =
     [task_ex ''a'' Resources False, task_ex ''b'' Areas False]
   \<and> toggleTask ''b'' [task_ex ''a'' Resources False, task_ex ''b'' Areas False] =
     [task_ex ''a'' Resources False, task_ex ''b'' Areas True]"
  using toggleTask_frame [of "[task_ex ''a'' Resources False, task_ex ''b'' Areas False]" 0]
        toggleTask_frame [of "[task_ex ''a'' Resources False, task_ex ''b'' Areas False]" 1]
  by (simp add: task_ex_def)

subsection \<open>Adding a task\<close>

text \<open>A text is blank for \<^verbatim>\<open>handleAddTask\<close> exactly when it consists of white space; a
  text that starts with \<^verbatim>\<open>http\<close> is not blank.\<close>

lemma trim_Nil_iff: "trim s = [] \<longleftrightarrow> (\<forall>c \<in> set s. is_space c)"
proof -
  have "trim s = [] \<longleftrightarrow> (\<forall>c \<in> set (dropWhile is_space s). is_space c)"
    by (simp add: trim_def dropWhile_eq_Nil_conv)
  also have "\<dots> \<longleftrightarrow> dropWhile is_space s = []"
  proof
    assume a: "\<forall>c \<in> set (dropWhile is_space s). is_space c"
    show "dropWhile is_space s = []"
    proof (rule ccontr)
      assume n: "dropWhile is_space s \<noteq> []"
      then have "\<not> is_space (hd (dropWhile is_space s))" by (rule hd_dropWhile)
      with a n show False by simp
    qed
  qed (auto dest: set_dropWhileD)
  finally show ?thesis by (simp add: dropWhile_eq_Nil_conv)
qed

lemma isUrl_not_blank: "isUrl text \<Longrightarrow> trim text \<noteq> []"
  by (auto simp: isUrl_def startsWith_def trim_Nil_iff prefix_def is_space_def)

text \<open>The \<^verbatim>\<open>try\<close> block succeeds exactly when the URL parses and both services answer.\<close>

lemma tryLinkMeta_Inr_iff:
  "tryLinkMeta e text = Inr lm \<longleftrightarrow>
     (\<exists>host t s. url_hostname e text = Inr host \<and> summarizeLink e text = Inr t \<and>
        generateShortSlug e text = Inr s \<and>
        lm = \<lparr>displayTitle = t, domain = replace host ''www.'' '''',
              favicon = ''https://www.google.com/s2/favicons?domain='' @ replace host ''www.'' '''' @ ''&sz=64'',
              link_slug = s, isPinned = False\<rparr>)"
  by (auto simp: tryLinkMeta_def Let_def split: sum.splits)

lemma tryLinkMeta_service_fails:
  "summarizeLink e text = Inl a \<or> generateShortSlug e text = Inl b \<Longrightarrow> \<exists>err. tryLinkMeta e text = Inl err"
  by (auto simp: tryLinkMeta_def Let_def split: sum.splits)

text \<open>
  C1. For a text that is not blank: if it starts with \<^verbatim>\<open>http\<close> and the link resolution
  succeeds, \<^verbatim>\<open>onAddTask\<close> is called with the link metadata and with the chosen category,
  or \<open>Resources\<close> when none is chosen. If it does not start with \<^verbatim>\<open>http\<close>, or the link
  resolution fails, \<^verbatim>\<open>onAddTask\<close> is called without metadata, with the chosen category
  or else with the category that \<^verbatim>\<open>categorizeTask\<close> returns for the text. The link
  resolution succeeds exactly when the URL parses and \<^verbatim>\<open>summarizeLink\<close> and
  \<^verbatim>\<open>generateShortSlug\<close> both succeed.
\<close>

theorem handleAddTask_decision_order:
  assumes "trim text \<noteq> []"
  shows "(isUrl text \<and> tryLinkMeta e text = Inr lm \<longrightarrow>
            handleAddTask e m text day =
              OnAddTask text (case m of Auto \<Rightarrow> Resources | Chosen c \<Rightarrow> c) day (Some lm))
       \<and> (\<not> isUrl text \<or> tryLinkMeta e text = Inl err \<longrightarrow>
            (\<forall>c. m = Chosen c \<longrightarrow> handleAddTask e m text day = OnAddTask text c day None) \<and>
            (\<forall>c. m = Auto \<and> categorizeTask e text = Inr c \<longrightarrow>
                 handleAddTask e m text day = OnAddTask text c day None))
       \<and> (tryLinkMeta e text = Inr lm \<longleftrightarrow>
            (\<exists>host t s. url_hostname e text = Inr host \<and> summarizeLink e text = Inr t \<and>
               generateShortSlug e text = Inr s \<and>
               lm = \<lparr>displayTitle = t, domain = replace host ''www.'' '''',
                     favicon = ''https://www.google.com/s2/favicons?domain=''
                               @ replace host ''www.'' '''' @ ''&sz=64'',
                     link_slug = s, isPinned = False\<rparr>))"
proof (intro conjI)
  show "isUrl text \<and> tryLinkMeta e text = Inr lm \<longrightarrow>
            handleAddTask e m text day =
              OnAddTask text (case m of Auto \<Rightarrow> Resources | Chosen c \<Rightarrow> c) day (Some lm)"
    using assms by (simp add: handleAddTask_def)
  show "\<not> isUrl text \<or> tryLinkMeta e text = Inl err \<longrightarrow>
            (\<forall>c. m = Chosen c \<longrightarrow> handleAddTask e m text day = OnAddTask text c day None) \<and>
            (\<forall>c. m = Auto \<and> categorizeTask e text = Inr c \<longrightarrow>
                 handleAddTask e m text day = OnAddTask text c day None)"
    using assms by (auto simp: handleAddTask_def autoOrManual_def)
  show "tryLinkMeta e text = Inr lm \<longleftrightarrow>
            (\<exists>host t s. url_hostname e text = Inr host \<and> summarizeLink e text = Inr t \<and>
               generateShortSlug e text = Inr s \<and>
               lm = \<lparr>displayTitle = t, domain = replace host ''www.'' '''',
                     favicon = ''https://www.google.com/s2/favicons?domain=''
                               @ replace host ''www.'' '''' @ ''&sz=64'',
                     link_slug = s, isPinned = False\<rparr>)"
    by (rule tryLinkMeta_Inr_iff)
qed

theorem handleAddTask_decision_order_witness:
  "trim ''https://example.com/page'' \<noteq> [] \<and> isUrl ''https://example.com/page''
   \<and> handleAddTask env_up Auto ''https://example.com/page'' ''2024-01-01'' =
       OnAddTask ''https://example.com/page'' Resources ''2024-01-01''
         (Some \<lparr>displayTitle = ''Example page'', domain = ''example.com'',
                favicon = ''https://www.google.com/s2/favicons?domain=example.com&sz=64'',
                link_slug = ''ex-page'', isPinned = False\<rparr>)
   \<and> handleAddTask env_up (Chosen Projects) ''https://example.com/page'' ''2024-01-01'' =
       OnAddTask ''https://example.com/page'' Projects ''2024-01-01''
         (Some \<lparr>displayTitle = ''Example page'', domain = ''example.com'',
                favicon = ''https://www.google.com/s2/favicons?domain=example.com&sz=64'',
                link_slug = ''ex-page'', isPinned = False\<rparr>)
   \<and> trim ''buy milk'' \<noteq> [] \<and> \<not> isUrl ''buy milk''
   \<and> handleAddTask env_up Auto ''buy milk'' ''2024-01-01'' =
       OnAddTask ''buy milk'' Areas ''2024-01-01'' None
   \<and> handleAddTask env_up (Chosen Resources) ''buy milk'' ''2024-01-01'' =
       OnAddTask ''buy milk'' Resources ''2024-01-01'' None
   \<and> tryLinkMeta env_nolink ''https://example.com/page'' = Inl Rejected
   \<and> handleAddTask env_nolink Auto ''https://example.com/page'' ''2024-01-01'' =
       OnAddTask ''https://example.com/page'' Areas ''2024-01-01'' None"
proof -
  let ?u = "''https://example.com/page''"
  let ?lm = "\<lparr>displayTitle = ''Example page'', domain = ''example.com'',
                favicon = ''https://www.google.com/s2/favicons?domain=example.com&sz=64'',
                link_slug = ''ex-page'', isPinned = False\<rparr>"
  have t1: "trim ?u \<noteq> []" by (simp add: trim_def is_space_def)
  have t2: "trim ''buy milk'' \<noteq> []" by (simp add: trim_def is_space_def)
  have u1: "isUrl ?u" by (simp add: isUrl_def startsWith_def)
  have u2: "\<not> isUrl ''buy milk''" by (simp add: isUrl_def startsWith_def)
  have l1: "tryLinkMeta env_up ?u = Inr ?lm" by (simp add: tryLinkMeta_def env_up_def)
  have l2: "tryLinkMeta env_nolink ?u = Inl Rejected"
    by (simp add: tryLinkMeta_def env_nolink_def env_up_def)
  have c1: "categorizeTask env_up ''buy milk'' = Inr Areas" by (simp add: env_up_def)
  have c2: "categorizeTask env_nolink ?u = Inr Areas" by (simp add: env_nolink_def env_up_def)
  show ?thesis
    using handleAddTask_decision_order [OF t1, where e = env_up and lm = "?lm" and err = Rejected
             and m = "Auto" and day = "''2024-01-01''"]
          handleAddTask_decision_order [OF t1, where e = env_up and lm = "?lm" and err = Rejected
             and m = "Chosen Projects" and day = "''2024-01-01''"]
          handleAddTask_decision_order [OF t2, where e = env_up and lm = "?lm" and err = Rejected
             and m = "Auto" and day = "''2024-01-01''"]
          handleAddTask_decision_order [OF t2, where e = env_up and lm = "?lm" and err = Rejected
             and m = "Chosen Resources" and day = "''2024-01-01''"]
          handleAddTask_decision_order [OF t1, where e = env_nolink and lm = "?lm" and err = Rejected
             and m = "Auto" and day = "''2024-01-01''"]
          t1 t2 u1 u2 l1 l2 c1 c2
    by simp
qed

text \<open>
  For a text that starts with \<^verbatim>\<open>http\<close> and for which \<^verbatim>\<open>summarizeLink\<close> or
  \<^verbatim>\<open>generateShortSlug\<close> fails: with a chosen category, or with none and a
  \<^verbatim>\<open>categorizeTask\<close> that answers, \<^verbatim>\<open>onAddTask\<close> is called without link metadata and with
  the chosen category or the answer of \<^verbatim>\<open>categorizeTask\<close> for the text. The failure of a
  link service is caught; the handler fails only with the rejection of
  \<^verbatim>\<open>categorizeTask\<close>.
\<close>

lemma link_failure_fallback:
  assumes "isUrl text" and "summarizeLink e text = Inl a \<or> generateShortSlug e text = Inl b"
  shows "(\<forall>c. m = Chosen c \<longrightarrow> handleAddTask e m text day = OnAddTask text c day None)
       \<and> (\<forall>c. m = Auto \<and> categorizeTask e text = Inr c \<longrightarrow>
               handleAddTask e m text day = OnAddTask text c day None)
       \<and> (\<forall>err. handleAddTask e m text day = Unhandled err \<longrightarrow>
               m = Auto \<and> categorizeTask e text = Inl err)"
proof -
  from assms(2) obtain err where f: "tryLinkMeta e text = Inl err"
    using tryLinkMeta_service_fails by blast
  from assms(1) have nb: "trim text \<noteq> []" by (rule isUrl_not_blank)
  show ?thesis
    using f nb assms(1)
    by (cases m; cases "categorizeTask e text") (simp_all add: handleAddTask_def autoOrManual_def)
qed

lemma link_failure_fallback_instances:
  "isUrl ''https://example.com/page''
   \<and> summarizeLink env_nolink ''https://example.com/page'' = Inl Rejected
   \<and> handleAddTask env_nolink Auto ''https://example.com/page'' ''2024-01-01'' =
       OnAddTask ''https://example.com/page'' Areas ''2024-01-01'' None
   \<and> handleAddTask env_down (Chosen Projects) ''https://example.com/page'' ''2024-01-01'' =
       OnAddTask ''https://example.com/page'' Projects ''2024-01-01'' None"
proof -
  let ?u = "''https://example.com/page''"
  have u: "isUrl ?u" by (simp add: isUrl_def startsWith_def)
  have s1: "summarizeLink env_nolink ?u = Inl Rejected \<or> generateShortSlug env_nolink ?u = Inl Rejected"
    by (simp add: env_nolink_def)
  have s2: "summarizeLink env_down ?u = Inl Rejected \<or> generateShortSlug env_down ?u = Inl Rejected"
    by (simp add: env_down_def env_nolink_def)
  have c: "categorizeTask env_nolink ?u = Inr Areas" by (simp add: env_nolink_def env_up_def)
  show ?thesis
    using link_failure_fallback [OF u s1, of Auto "''2024-01-01''"]
          link_failure_fallback [OF u s2, of "Chosen Projects" "''2024-01-01''"] u c
    by (simp add: env_nolink_def)
qed

text \<open>
  C5. When \<^verbatim>\<open>summarizeLink\<close> fails for a text that starts with \<^verbatim>\<open>http\<close>, the entry is
  still to be created, and no failure of a service is to end the add operation. With
  no category chosen and a \<^verbatim>\<open>categorizeTask\<close> that rejects as well, the handler ends
  with that rejection: \<^verbatim>\<open>onAddTask\<close> is not called, and \<^verbatim>\<open>isAiLoading\<close> stays true.
\<close>

theorem classifier_rejection_unhandled:
  "isUrl ''https://example.com/page'' \<and>
   summarizeLink env_down ''https://example.com/page'' = Inl Rejected \<and>
   categorizeTask env_down ''https://example.com/page'' = Inl Rejected \<and>
   handleAddTask env_down Auto ''https://example.com/page'' ''2024-01-01'' = Unhandled Rejected \<and>
   isAiLoading_after False
     (handleAddTask env_down Auto ''https://example.com/page'' ''2024-01-01'')"
  by (simp add: env_down_def env_nolink_def env_up_def handleAddTask_def isUrl_def
      startsWith_def trim_def is_space_def tryLinkMeta_def autoOrManual_def
      isAiLoading_after_def)

text \<open>
  C10. \<^verbatim>\<open>onAddTask\<close> receives link metadata only for a text that starts with the four
  characters \<^verbatim>\<open>http\<close>. Any other text takes the path without a link: nothing on a blank
  text, else the category of \<open>autoOrManual\<close> and no metadata. The instances are
  \<^verbatim>\<open>ftp://example.com/file\<close> and \<^verbatim>\<open>HTTP://EXAMPLE.COM\<close>.
\<close>

theorem no_http_prefix_no_linkMetadata:
  "(handleAddTask e m text day = OnAddTask t c d (Some lm) \<longrightarrow> prefix ''http'' text)
   \<and> (\<not> prefix ''http'' text \<longrightarrow>
        handleAddTask e m text day =
          (if trim text = [] then NoSubmit
           else case autoOrManual e m text of
                  Inr finalCategory \<Rightarrow> OnAddTask text finalCategory day None
                | Inl err \<Rightarrow> Unhandled err))"
  by (auto simp: handleAddTask_def isUrl_def startsWith_def split: sum.splits if_splits)

theorem no_http_prefix_no_linkMetadata_witness:
  "\<not> prefix ''http'' ''ftp://example.com/file'' \<and> \<not> prefix ''http'' ''HTTP://EXAMPLE.COM''
   \<and> handleAddTask env_up Auto ''ftp://example.com/file'' ''2024-01-01'' =
       OnAddTask ''ftp://example.com/file'' Areas ''2024-01-01'' None
   \<and> handleAddTask env_up Auto ''HTTP://EXAMPLE.COM'' ''2024-01-01'' =
       OnAddTask ''HTTP://EXAMPLE.COM'' Areas ''2024-01-01'' None"
  using no_http_prefix_no_linkMetadata [of env_up Auto "''ftp://example.com/file''" "''2024-01-01''"]
        no_http_prefix_no_linkMetadata [of env_up Auto "''HTTP://EXAMPLE.COM''" "''2024-01-01''"]
  by (simp add: trim_def is_space_def autoOrManual_def env_up_def)

text \<open>The entry that \<open>addEntry\<close> makes of the arguments of \<^verbatim>\<open>onAddTask\<close>.\<close>

lemma addEntry_fields:
  "task_title (hd (addEntry fresh title cat day metadata tasks)) = title"
  "category (hd (addEntry fresh title cat day metadata tasks)) = cat"
  "linkMetadata (hd (addEntry fresh title cat day metadata tasks)) = metadata"
  "task_completed (hd (addEntry fresh title cat day metadata tasks)) = False"
  by (simp_all add: addEntry_def)

subsection \<open>The domain of a link\<close>

text \<open>\<^verbatim>\<open>replace\<close> removes a leading \<^verbatim>\<open>www.\<close>.\<close>

lemma replace_prefix: "pat \<noteq> [] \<Longrightarrow> replace (pat @ s) pat rep = rep @ s"
  by (cases pat) simp_all

text \<open>
  C6. For the host \<^verbatim>\<open>docs.www.example.com\<close>, which does not begin with \<^verbatim>\<open>www.\<close>, the
  domain of the metadata is \<^verbatim>\<open>docs.example.com\<close> and not the host: \<^verbatim>\<open>replace\<close> removes the
  first \<^verbatim>\<open>www.\<close> wherever it stands.
\<close>

theorem domain_inner_www:
  "handleAddTask env_up Auto ''https://docs.www.example.com/guide'' ''2024-01-01'' =
     OnAddTask ''https://docs.www.example.com/guide'' Resources ''2024-01-01''
       (Some \<lparr>displayTitle = ''Example page'', domain = ''docs.example.com'',
              favicon = ''https://www.google.com/s2/favicons?domain=docs.example.com&sz=64'',
              link_slug = ''ex-page'', isPinned = False\<rparr>)"
  by (simp add: env_up_def handleAddTask_def isUrl_def startsWith_def trim_def
      is_space_def tryLinkMeta_def)

subsection \<open>Archived entries\<close>

text \<open>
  C9. \<open>toggleTask\<close> keeps the \<open>archivedItems\<close>, the notes and the id of every entry,
  position by position, and keeps every entry with another id as it is. A click on
  an entry of category \<open>Archives\<close> that carries \<open>archivedItems\<close> changes nothing.
  \<open>deleteTask\<close> keeps exactly the entries with another id, unchanged and in their
  order. Adding an entry leaves the entries that were there as they are.
\<close>

theorem archived_fields_preserved:
  "map archivedItems (toggleTask i tasks) = map archivedItems tasks
   \<and> map task_notes (toggleTask i tasks) = map task_notes tasks
   \<and> map task_id (toggleTask i tasks) = map task_id tasks
   \<and> (\<forall>t \<in> set tasks. task_id t \<noteq> i \<longrightarrow> t \<in> set (toggleTask i tasks))
   \<and> (category a = Archives \<and> archivedItems a \<noteq> None \<longrightarrow> onClickTask a tasks = tasks)
   \<and> set (deleteTask i tasks) = {t \<in> set tasks. task_id t \<noteq> i}
   \<and> subseq (deleteTask i tasks) tasks
   \<and> tl (addEntry fresh title cat day metadata tasks) = tasks"
  by (auto simp: toggleTask_def deleteTask_def onClickTask_def addEntry_def comp_def
      split: option.splits intro!: image_eqI)

theorem archived_fields_preserved_witness:
  "toggleTask ''b'' [archived_ex, task_ex ''b'' Areas False] = [archived_ex, task_ex ''b'' Areas True]
   \<and> category archived_ex = Archives \<and> archivedItems archived_ex \<noteq> None
   \<and> onClickTask archived_ex [archived_ex, task_ex ''b'' Areas False] =
       [archived_ex, task_ex ''b'' Areas False]
   \<and> deleteTask ''b'' [archived_ex, task_ex ''b'' Areas False] = [archived_ex]
   \<and> deleteTask ''z'' [archived_ex, task_ex ''b'' Areas False] = [task_ex ''b'' Areas False]
   \<and> archived_ex \<in> set (toggleTask ''b'' [archived_ex, task_ex ''b'' Areas False])"
  using archived_fields_preserved [of "''b''" "[archived_ex, task_ex ''b'' Areas False]" archived_ex]
  by (simp add: archived_ex_def task_ex_def toggleTask_def deleteTask_def)

end
